theory Spec2Isabelle
  imports Main "HOL-Library.Sublist"
begin

section \<open>Host values: strings and numbers\<close>

text \<open>
  A JavaScript string is a sequence of UTF-16 code units. A code unit is a number below
  \<open>2^16\<close>, and \<^term>\<open>length s\<close> is the \<^verbatim>\<open>.length\<close> of the source. The model only
  compares code units and moves a digit or a letter within its block, so the bound is
  not written out.
\<close>

type_synonym code_unit = nat

type_synonym jstring = "code_unit list"

definition str :: "string \<Rightarrow> jstring" where
  \<comment> \<open>a string literal of the source: the code units of its characters\<close>
  "str cs = map of_char cs"

definition isWhiteSpace :: "code_unit \<Rightarrow> bool" where
  \<comment> \<open>WhiteSpace and LineTerminator of ECMA-262: TAB, LF, VT, FF, CR, SP, NBSP, the other
      space separators (U+1680, U+2000 to U+200A, U+202F, U+205F, U+3000), LS, PS and
      U+FEFF\<close>
  "isWhiteSpace c =
     (c \<in> {0x09, 0x0A, 0x0B, 0x0C, 0x0D, 0x20, 0xA0, 0x1680, 0x2028, 0x2029, 0x202F, 0x205F,
            0x3000, 0xFEFF}
      \<or> (0x2000 \<le> c \<and> c \<le> 0x200A))"

definition trim :: "jstring \<Rightarrow> jstring" where
  \<comment> \<open>\<^verbatim>\<open>String.prototype.trim\<close>: white space removed at both ends\<close>
  "trim s = rev (dropWhile isWhiteSpace (rev (dropWhile isWhiteSpace s)))"

definition startsWith :: "jstring \<Rightarrow> jstring \<Rightarrow> bool" where
  "startsWith s q = (take (length q) s = q)"

fun includes_str :: "jstring \<Rightarrow> jstring \<Rightarrow> bool" where
  \<comment> \<open>\<^verbatim>\<open>String.prototype.includes\<close>: the search string occurs at some position\<close>
  "includes_str [] q = (q = [])"
| "includes_str (c # cs) q = (startsWith (c # cs) q \<or> includes_str cs q)"

definition substring0 :: "jstring \<Rightarrow> nat \<Rightarrow> jstring" where
  \<comment> \<open>\<^verbatim>\<open>s.substring(0, n)\<close>\<close>
  "substring0 s n = take n s"

text \<open>
  A JavaScript number, as far as this program makes one: an integer, or NaN.
  Integers are exact (the rounding of integers beyond \<open>2^53\<close> is not modelled).
\<close>

datatype number = NaN | Num int

definition or_else :: "number \<Rightarrow> number \<Rightarrow> number" where
  \<comment> \<open>\<^verbatim>\<open>a || b\<close> on numbers: NaN and 0 are falsy\<close>
  "or_else a b = (case a of NaN \<Rightarrow> b | Num n \<Rightarrow> if n = 0 then b else Num n)"

definition Math_max :: "number \<Rightarrow> number \<Rightarrow> number" where
  "Math_max a b =
     (case a of NaN \<Rightarrow> NaN
      | Num x \<Rightarrow> (case b of NaN \<Rightarrow> NaN | Num y \<Rightarrow> Num (max x y)))"

definition slice0 :: "'a list \<Rightarrow> number \<Rightarrow> 'a list" where
  \<comment> \<open>\<^verbatim>\<open>xs.slice(0, end)\<close>: NaN counts as 0, a negative end counts from the end of the array\<close>
  "slice0 xs e =
     (case e of
        NaN \<Rightarrow> []
      | Num n \<Rightarrow> if n < 0 then take (nat (int (length xs) + n)) xs else take (nat n) xs)"

definition digitValue :: "code_unit \<Rightarrow> nat option" where
  \<comment> \<open>the value of a digit in radix up to 36: \<open>0\<close> to \<open>9\<close>, \<open>a\<close> to \<open>z\<close>, \<open>A\<close> to \<open>Z\<close>\<close>
  "digitValue c =
     (if 48 \<le> c \<and> c \<le> 57 then Some (c - 48)
      else if 97 \<le> c \<and> c \<le> 122 then Some (c - 87)
      else if 65 \<le> c \<and> c \<le> 90 then Some (c - 55)
      else None)"

definition isRadixDigit :: "nat \<Rightarrow> code_unit \<Rightarrow> bool" where
  "isRadixDigit R c = (case digitValue c of None \<Rightarrow> False | Some d \<Rightarrow> d < R)"

definition radixValue :: "nat \<Rightarrow> jstring \<Rightarrow> int" where
  "radixValue R z =
     foldl (\<lambda>acc c. acc * int R + (case digitValue c of None \<Rightarrow> 0 | Some d \<Rightarrow> int d)) 0 z"

definition parseInt :: "jstring \<Rightarrow> nat \<Rightarrow> number" where
  \<comment> \<open>\<^verbatim>\<open>Number.parseInt(string, radix)\<close>; radix 0 stands for a radix that is not given\<close>
  "parseInt string radix =
     (let S = dropWhile isWhiteSpace string;
          sign = (if startsWith S (str ''-'') then - 1 else 1 :: int);
          S1 = (if startsWith S (str ''+'') \<or> startsWith S (str ''-'') then tl S else S)
      in if radix \<noteq> 0 \<and> (radix < 2 \<or> 36 < radix) then NaN
         else
           let stripPrefix = (radix = 0 \<or> radix = 16);
               hex = (stripPrefix \<and> (startsWith S1 (str ''0x'') \<or> startsWith S1 (str ''0X'')));
               R = (if hex then 16 else if radix = 0 then 10 else radix);
               S2 = (if hex then drop 2 S1 else S1);
               Z = takeWhile (isRadixDigit R) S2
           in if Z = [] then NaN else Num (sign * radixValue R Z))"

function digits :: "nat \<Rightarrow> jstring" where
  \<comment> \<open>the decimal digits of a number; the digit \<open>d\<close> is the code unit \<open>48 + d\<close>\<close>
  "digits n =
     (if n < 10 then [48 + n]
      else digits (n div 10) @ [48 + n mod 10])"
  by pat_completeness auto
termination
  by (relation "measure (\<lambda>n. n)") auto

declare digits.simps [simp del]

definition toString :: "int \<Rightarrow> jstring" where
  \<comment> \<open>\<^verbatim>\<open>Number.prototype.toString\<close> on an integer: its decimal digits\<close>
  "toString i = (if i < 0 then str ''-'' @ digits (nat (- i)) else digits (nat i))"

section \<open>The clipboard component\<close>

datatype contentType = TypeText | TypeMarkdown | TypeCode | TypeUrl

record ClipboardItem =
  item_id :: jstring
  item_text :: jstring
  item_timestamp :: int
  item_preview :: jstring
  item_tags :: "jstring list"
  item_type :: contentType

definition PREDEFINED_TAGS :: "jstring list" where
  "PREDEFINED_TAGS =
     [str ''Work'', str ''Personal'', str ''Code'', str ''Links'', str ''Notes'', str ''Temp'']"

text \<open>
  The state of the component: one field for each \<^verbatim>\<open>useState\<close> cell that the
  store's operations read or write (\<open>text_value\<close> is the cell \<^verbatim>\<open>text\<close>, the
  content of the input area).
\<close>

record state =
  text_value :: jstring
  items :: "ClipboardItem list"
  searchQuery :: jstring
  selectedTags :: "jstring list"
  newTag :: jstring
  contentType :: contentType
  maxItems :: number
  allTags :: "jstring list"
  isTagFilterActive :: bool

definition initial_state :: state where
  "initial_state =
     \<lparr> text_value = [], items = [], searchQuery = [], selectedTags = [], newTag = [],
       contentType = TypeText, maxItems = Num 50, allTags = PREDEFINED_TAGS,
       isTagFilterActive = False \<rparr>"

definition createPreview :: "jstring \<Rightarrow> jstring" where
  "createPreview t = (if length t > 50 then substring0 t 50 @ str ''...'' else t)"

definition detectContentType :: "jstring \<Rightarrow> contentType" where
  \<comment> \<open>the string of three code units 96 is the fence of three backquotes\<close>
  "detectContentType t =
     (if startsWith t (str ''http://'') \<or> startsWith t (str ''https://'') then TypeUrl
      else if includes_str t [96, 96, 96] \<or> includes_str t (str ''function'')
              \<or> includes_str t (str ''const '') \<or> includes_str t (str ''import '')
      then TypeCode
      else if includes_str t (str ''#'') \<or> includes_str t (str ''**'')
              \<or> includes_str t (str ''*'') \<or> includes_str t (str ''['')
              \<or> includes_str t (str '']'')
      then TypeMarkdown
      else TypeText)"

definition newItem :: "state \<Rightarrow> int \<Rightarrow> int \<Rightarrow> ClipboardItem" where
  \<comment> \<open>the entry that \<^verbatim>\<open>saveText\<close> builds; \<open>now1\<close> and \<open>now2\<close> are its two readings of
      \<^verbatim>\<open>Date.now()\<close>\<close>
  "newItem s now1 now2 =
     (let detectedType =
            (if contentType s = TypeText then detectContentType (trim (text_value s))
             else contentType s)
      in \<lparr> item_id = toString now1,
           item_text = trim (text_value s),
           item_timestamp = now2,
           item_preview = createPreview (trim (text_value s)),
           item_tags = selectedTags s,
           item_type = detectedType \<rparr>)"

definition saveText :: "int \<Rightarrow> int \<Rightarrow> state \<Rightarrow> state" where
  "saveText now1 now2 s =
     (if trim (text_value s) = [] then s
      else
        let n = newItem s now1 now2;
            filtered = filter (\<lambda>item. item_text item \<noteq> item_text n) (items s);
            newItems = slice0 (n # filtered) (maxItems s)
        in s\<lparr> items := newItems, text_value := [], selectedTags := [],
               contentType := TypeText \<rparr>)"

definition deleteItem :: "jstring \<Rightarrow> state \<Rightarrow> state" where
  "deleteItem i s = s\<lparr> items := filter (\<lambda>item. item_id item \<noteq> i) (items s) \<rparr>"

definition clearAll :: "state \<Rightarrow> state" where
  "clearAll s = s\<lparr> items := [] \<rparr>"

definition addTag :: "state \<Rightarrow> state" where
  "addTag s =
     (if trim (newTag s) \<noteq> [] \<and> trim (newTag s) \<notin> set (allTags s)
      then s\<lparr> allTags := allTags s @ [trim (newTag s)],
              selectedTags := selectedTags s @ [trim (newTag s)],
              newTag := [] \<rparr>
      else s)"

definition removeTag :: "jstring \<Rightarrow> state \<Rightarrow> state" where
  "removeTag tagToRemove s =
     s\<lparr> selectedTags := filter (\<lambda>tag. tag \<noteq> tagToRemove) (selectedTags s) \<rparr>"

definition selectTag :: "jstring \<Rightarrow> state \<Rightarrow> state" where
  \<comment> \<open>the handler of the tag menu\<close>
  "selectTag v s = (if v \<noteq> [] then s\<lparr> selectedTags := selectedTags s @ [v] \<rparr> else s)"

definition changeMaxItems :: "jstring \<Rightarrow> state \<Rightarrow> state" where
  \<comment> \<open>the handler of the settings field; \<open>v\<close> is \<^verbatim>\<open>e.target.value\<close>\<close>
  "changeMaxItems v s = s\<lparr> maxItems := Math_max (Num 1) (or_else (parseInt v 0) (Num 50)) \<rparr>"

text \<open>
  \<^verbatim>\<open>String.prototype.toLowerCase\<close> belongs to the host: it lower-cases by the tables and
  the rules of Unicode, which look at the neighbours of a letter (a capital sigma becomes
  the final sigma at the end of a word) and can change the length of a string. It is a
  parameter of the search, named as in the source.
\<close>

definition matchesSearch :: "(jstring \<Rightarrow> jstring) \<Rightarrow> jstring \<Rightarrow> ClipboardItem \<Rightarrow> bool" where
  "matchesSearch toLowerCase q item = includes_str (toLowerCase (item_text item)) (toLowerCase q)"

definition matchesTags :: "bool \<Rightarrow> jstring list \<Rightarrow> ClipboardItem \<Rightarrow> bool" where
  "matchesTags active sel item =
     (\<not> active \<or> length sel = 0 \<or> list_ex (\<lambda>tag. tag \<in> set (item_tags item)) sel)"

definition filteredItems :: "(jstring \<Rightarrow> jstring) \<Rightarrow> state \<Rightarrow> ClipboardItem list" where
  "filteredItems toLowerCase s =
     filter (\<lambda>item. matchesSearch toLowerCase (searchQuery s) item
                     \<and> matchesTags (isTagFilterActive s) (selectedTags s) item)
       (items s)"

subsection \<open>Loading the persisted state\<close>

text \<open>
  \<^verbatim>\<open>JSON.parse\<close> belongs to the host: it is a parameter of the model, one for each
  type the component reads, and a parse that throws is the value \<open>Inl SyntaxError\<close>.
  The three arguments after the parsers are what \<^verbatim>\<open>localStorage.getItem\<close> returned for
  the three keys (\<open>None\<close> for \<^verbatim>\<open>null\<close>); an empty string is falsy as \<^verbatim>\<open>null\<close> is.
\<close>

datatype js_error = SyntaxError

definition loadPersisted ::
  "(jstring \<Rightarrow> js_error + ClipboardItem list) \<Rightarrow> (jstring \<Rightarrow> js_error + jstring list) \<Rightarrow>
   jstring option \<Rightarrow> jstring option \<Rightarrow> jstring option \<Rightarrow> state \<Rightarrow> state" where
  "loadPersisted parseItems parseTags saved savedMaxItems savedTags s =
     (let s1 = (case saved of
                  None \<Rightarrow> s
                | Some j \<Rightarrow>
                    if j = [] then s
                    else (case parseItems j of Inl e \<Rightarrow> s | Inr v \<Rightarrow> s\<lparr> items := v \<rparr>));
          s2 = (case savedMaxItems of
                  None \<Rightarrow> s1
                | Some m \<Rightarrow> if m = [] then s1 else s1\<lparr> maxItems := parseInt m 10 \<rparr>);
          s3 = (case savedTags of
                  None \<Rightarrow> s2
                | Some j \<Rightarrow>
                    if j = [] then s2
                    else (case parseTags j of
                            Inl e \<Rightarrow> s2\<lparr> allTags := PREDEFINED_TAGS \<rparr>
                          | Inr v \<Rightarrow> s2\<lparr> allTags := v \<rparr>))
      in s3)"

subsection \<open>Events\<close>

text \<open>
  Every handler runs to completion before the next one starts, so a session is a list of
  events run from the state that the load left, or from the initial state when nothing is
  stored.
\<close>

datatype event =
    SetText jstring
  | SetSearchQuery jstring
  | SetContentType contentType
  | SetNewTag jstring
  | AddTag
  | RemoveTag jstring
  | SelectTag jstring
  | ToggleTagFilter
  | ClearFilters
  | SaveText int int
  | DeleteItem jstring
  | ClearAll
  | ChangeMaxItems jstring

fun step :: "event \<Rightarrow> state \<Rightarrow> state" where
  "step (SetText v) s = s\<lparr> text_value := v \<rparr>"
| "step (SetSearchQuery v) s = s\<lparr> searchQuery := v \<rparr>"
| "step (SetContentType v) s = s\<lparr> contentType := v \<rparr>"
| "step (SetNewTag v) s = s\<lparr> newTag := v \<rparr>"
| "step AddTag s = addTag s"
| "step (RemoveTag v) s = removeTag v s"
| "step (SelectTag v) s = selectTag v s"
| "step ToggleTagFilter s = s\<lparr> isTagFilterActive := \<not> isTagFilterActive s \<rparr>"
| "step ClearFilters s = s\<lparr> selectedTags := [], isTagFilterActive := False \<rparr>"
| "step (SaveText now1 now2) s = saveText now1 now2 s"
| "step (DeleteItem i) s = deleteItem i s"
| "step ClearAll s = clearAll s"
| "step (ChangeMaxItems v) s = changeMaxItems v s"

fun run :: "event list \<Rightarrow> state \<Rightarrow> state" where
  "run [] s = s"
| "run (e # es) s = run es (step e s)"

section \<open>Notions of the specification\<close>

text \<open>
  The specification speaks of a text that contains a query as a case-insensitive
  substring: some stretch of the text is the query up to the case of its letters. For the
  letters of ASCII and Latin-1 (the code units below 256), a capital letter and its small
  letter are 32 apart; the capital letters are \<open>A\<close> to \<open>Z\<close> and U+00C0 to U+00DE but the
  multiplication sign U+00D7. Two other code units are the same letter only when they are
  the same code unit.
\<close>

definition isCapital :: "code_unit \<Rightarrow> bool" where
  "isCapital c = ((65 \<le> c \<and> c \<le> 90) \<or> (192 \<le> c \<and> c \<le> 222 \<and> c \<noteq> 215))"

definition same_letter :: "code_unit \<Rightarrow> code_unit \<Rightarrow> bool" where
  "same_letter a b = (a = b \<or> (isCapital a \<and> b = a + 32) \<or> (isCapital b \<and> a = b + 32))"

definition contains_ignoring_case :: "jstring \<Rightarrow> jstring \<Rightarrow> bool" where
  "contains_ignoring_case t q =
     (\<exists>pre mid post. t = pre @ mid @ post \<and> list_all2 same_letter mid q)"

text \<open>
  On a string whose code units are all below 256, \<^verbatim>\<open>toLowerCase\<close> moves each capital
  letter to its small letter and leaves every other code unit as it is.
\<close>

definition lower_unit :: "code_unit \<Rightarrow> code_unit" where
  "lower_unit c = (if isCapital c then c + 32 else c)"

definition lowers_Latin1 :: "(jstring \<Rightarrow> jstring) \<Rightarrow> bool" where
  "lowers_Latin1 toLowerCase =
     (\<forall>t. list_all (\<lambda>c. c < 256) t \<longrightarrow> toLowerCase t = map lower_unit t)"

text \<open>
  The values of \<^verbatim>\<open>toLowerCase\<close> at two Greek strings: the word of the four capital
  letters omicron, delta, omicron, sigma (U+039F, U+0394, U+039F, U+03A3) becomes the four
  small letters with the final sigma U+03C2 at its end, and the capital sigma alone
  becomes the small sigma U+03C3. The value at any other string is not used.
\<close>

definition toLowerCase_sigma :: "jstring \<Rightarrow> jstring" where
  "toLowerCase_sigma t =
     (if t = [0x39F, 0x394, 0x39F, 0x3A3] then [0x3BF, 0x3B4, 0x3BF, 0x3C2]
      else if t = [0x3A3] then [0x3C3]
      else t)"

text \<open>The entry list is within capacity when its length is at most \<^verbatim>\<open>maxItems\<close>.\<close>

definition within_capacity :: "state \<Rightarrow> bool" where
  "within_capacity s =
     (case maxItems s of NaN \<Rightarrow> False | Num m \<Rightarrow> int (length (items s)) \<le> m)"

text \<open>The clock readings that the saves of a session turn into ids.\<close>

fun idClocks :: "event list \<Rightarrow> int list" where
  "idClocks [] = []"
| "idClocks (SaveText now1 now2 # es) = now1 # idClocks es"
| "idClocks (e # es) = idClocks es"

section \<open>Properties\<close>

subsection \<open>Strings\<close>

lemma startsWith_prefix: "startsWith s q \<longleftrightarrow> prefix q s"
  unfolding startsWith_def prefix_def
  by (metis append_eq_conv_conj)

lemma includes_str_sublist: "includes_str s q \<longleftrightarrow> sublist q s"
  by (induction s) (auto simp: startsWith_prefix sublist_Cons_right)

lemma length_str [simp]: "length (str cs) = length cs"
  by (simp add: str_def)

lemma str_eq_Nil [simp]: "str cs = [] \<longleftrightarrow> cs = []"
  by (simp add: str_def)

lemma trim_blank_example: "trim (str ''  '') = []"
  by (simp add: trim_def isWhiteSpace_def str_def)

subsection \<open>Decimal digits\<close>

lemma digitValue_digit: "d < 10 \<Longrightarrow> digitValue (48 + d) = Some d"
  by (simp add: digitValue_def)

lemma radixValue_snoc:
  "radixValue R (z @ [c]) =
     radixValue R z * int R + (case digitValue c of None \<Rightarrow> 0 | Some d \<Rightarrow> int d)"
  by (simp add: radixValue_def)

lemma radixValue_digits: "radixValue 10 (digits n) = int n"
proof (induction n rule: digits.induct)
  case (1 n)
  show ?case
  proof (cases "n < 10")
    case True
    then show ?thesis
      by (simp add: digits.simps [of n] radixValue_def digitValue_digit)
  next
    case False
    then have "radixValue 10 (digits n) = int (n div 10) * 10 + int (n mod 10)"
      using "1.IH" by (simp add: digits.simps [of n] radixValue_snoc digitValue_digit)
    also have "\<dots> = int (n div 10 * 10 + n mod 10)"
      by (simp only: of_nat_add of_nat_mult of_nat_numeral)
    also have "\<dots> = int n"
      by (simp only: div_mult_mod_eq)
    finally show ?thesis .
  qed
qed

lemma hd_digits: "digits n \<noteq> [] \<and> hd (digits n) \<noteq> 45"
proof (induction n rule: digits.induct)
  case (1 n)
  show ?case
  proof (cases "n < 10")
    case True
    then show ?thesis by (simp add: digits.simps [of n])
  next
    case False
    then show ?thesis using "1.IH" by (simp add: digits.simps [of n])
  qed
qed

lemma toString_inject: "toString i = toString j \<longleftrightarrow> i = j"
proof
  assume eq: "toString i = toString j"
  have neg: "hd (toString k) = 45 \<longleftrightarrow> k < 0" for k
    using hd_digits [of "nat k"] by (simp add: toString_def str_def)
  show "i = j"
  proof (cases "i < 0")
    case True
    then have "j < 0" using neg [of i] neg [of j] eq by simp
    with True eq have "digits (nat (- i)) = digits (nat (- j))"
      by (simp add: toString_def)
    then have "int (nat (- i)) = int (nat (- j))"
      by (metis radixValue_digits)
    with True \<open>j < 0\<close> show ?thesis by simp
  next
    case False
    then have "\<not> j < 0" using neg [of i] neg [of j] eq by simp
    with False eq have "digits (nat i) = digits (nat j)"
      by (simp add: toString_def)
    then have "int (nat i) = int (nat j)"
      by (metis radixValue_digits)
    with False \<open>\<not> j < 0\<close> show ?thesis by simp
  qed
qed simp

subsection \<open>The entry that a save builds, and where it is stored\<close>

lemma item_id_newItem: "item_id (newItem s now1 now2) = toString now1"
  by (simp add: newItem_def)

lemma item_text_newItem: "item_text (newItem s now1 now2) = trim (text_value s)"
  by (simp add: newItem_def)

lemma item_timestamp_newItem: "item_timestamp (newItem s now1 now2) = now2"
  by (simp add: newItem_def)

lemma item_preview_newItem:
  "item_preview (newItem s now1 now2) = createPreview (trim (text_value s))"
  by (simp add: newItem_def)

lemma item_type_newItem:
  "item_type (newItem s now1 now2) =
     (if contentType s = TypeText then detectContentType (trim (text_value s)) else contentType s)"
  by (simp add: newItem_def)

lemma saveText_blank: "trim (text_value s) = [] \<Longrightarrow> saveText now1 now2 s = s"
  by (simp add: saveText_def)

lemma items_saveText:
  "trim (text_value s) \<noteq> [] \<Longrightarrow>
   items (saveText now1 now2 s) =
     slice0 (newItem s now1 now2 # filter (\<lambda>item. item_text item \<noteq> trim (text_value s)) (items s))
       (maxItems s)"
  by (simp add: saveText_def Let_def item_text_newItem)

lemma maxItems_saveText: "maxItems (saveText now1 now2 s) = maxItems s"
  by (simp add: saveText_def Let_def)

lemma slice0_Cons: "1 \<le> m \<Longrightarrow> slice0 (x # xs) (Num m) = x # take (nat m - 1) xs"
  by (simp add: slice0_def take_Cons')

lemma slice0_nonneg: "0 \<le> m \<Longrightarrow> slice0 xs (Num m) = take (nat m) xs"
  by (simp add: slice0_def)

lemma slice0_take: "\<exists>k. slice0 xs e = take k xs"
proof (cases e)
  case NaN
  then have "slice0 xs e = take 0 xs" by (simp add: slice0_def)
  then show ?thesis by blast
next
  case (Num n)
  then show ?thesis by (auto simp: slice0_def)
qed

lemma set_slice0: "set (slice0 xs e) \<subseteq> set xs"
  using slice0_take [of xs e] by (metis set_take_subset)

lemma hd_items_saveText:
  assumes "trim (text_value s) \<noteq> []" and "maxItems s = Num m" and "1 \<le> m"
  shows "hd (items (saveText now1 now2 s)) = newItem s now1 now2"
  using assms by (simp add: items_saveText slice0_Cons)

lemma items_run_save:
  "trim v \<noteq> [] \<Longrightarrow>
   items (run [SetText v, SaveText now1 now2] initial_state) =
     [newItem (initial_state\<lparr>text_value := v\<rparr>) now1 now2]"
  by (simp add: items_saveText slice0_def) (simp add: initial_state_def)

subsection \<open>Entries of the states of a session\<close>

lemma set_items_saveText:
  "set (items (saveText now1 now2 s)) \<subseteq> insert (newItem s now1 now2) (set (items s))"
proof (cases "trim (text_value s) = []")
  case True
  then show ?thesis by (auto simp: saveText_blank)
next
  case False
  then show ?thesis
    using set_slice0 [of "newItem s now1 now2 #
        filter (\<lambda>item. item_text item \<noteq> trim (text_value s)) (items s)" "maxItems s"]
    by (auto simp: items_saveText)
qed

lemma set_items_step:
  "set (items (step e s)) \<subseteq>
     set (items s) \<union> {x. \<exists>now1 now2. e = SaveText now1 now2 \<and> x = newItem s now1 now2}"
proof (cases e)
  case (SaveText now1 now2)
  then show ?thesis using set_items_saveText [of now1 now2 s] by auto
qed (auto simp: addTag_def removeTag_def selectTag_def changeMaxItems_def deleteItem_def
       clearAll_def)

lemma items_run_all:
  assumes "\<And>s now1 now2. P (newItem s now1 now2)"
  shows "list_all P (items s) \<Longrightarrow> list_all P (items (run es s))"
proof (induction es arbitrary: s)
  case Nil
  then show ?case by simp
next
  case (Cons e es)
  have "list_all P (items (step e s))"
    using Cons.prems assms set_items_step [of e s] by (auto simp: list_all_iff)
  then show ?case using Cons.IH by simp
qed

lemma items_initial_state: "items initial_state = []"
  by (simp add: initial_state_def)

subsection \<open>Saving a blank text\<close>

text \<open>
  C7. When the trimmed input is empty, \<^verbatim>\<open>saveText\<close> returns at its guard: it gives back
  the state it was called on, so no entry is created and the entry list is what it was.
  The model is a total function and the guard is the first statement of the source, so
  nothing is raised.
\<close>

theorem C7_blank_save_is_noop:
  "trim (text_value s) = [] \<Longrightarrow>
   saveText now1 now2 s = s \<and> items (step (SaveText now1 now2) s) = items s"
  by (simp add: saveText_blank)

theorem C7_blank_save_is_noop_witness:
  "saveText 7 7 (initial_state\<lparr>text_value := (str ''  '')\<rparr>) = initial_state\<lparr>text_value := (str ''  '')\<rparr>"
  using C7_blank_save_is_noop [of "initial_state\<lparr>text_value := (str ''  '')\<rparr>" 7 7]
  by (simp add: trim_blank_example)

subsection \<open>The preview of a saved entry\<close>

lemma length_createPreview: "length (createPreview t) \<le> 53"
  by (simp add: createPreview_def substring0_def)

lemma trim_example_long:
  "trim (str ''  The quick brown fox jumps over the lazy dog, twice over  '') =
     (str ''The quick brown fox jumps over the lazy dog, twice over'')"
  by (simp add: trim_def isWhiteSpace_def str_def)

text \<open>
  C6. For every input whose trimmed text is not empty, the entry that a save builds has
  the trimmed input as its text; its preview is that text when the text has at most 50
  characters, and otherwise the first 50 characters of it followed by the three-character
  marker \<open>...\<close>, so a preview never has more than 53 characters. That entry is the one
  stored at the head of the list (for a capacity of at least 1).
\<close>

theorem C6_preview:
  assumes "trim (text_value s) \<noteq> []"
  shows "item_text (newItem s now1 now2) = trim (text_value s) \<and>
         (if length (trim (text_value s)) \<le> 50
          then item_preview (newItem s now1 now2) = item_text (newItem s now1 now2)
          else item_preview (newItem s now1 now2) = take 50 (trim (text_value s)) @ (str ''...'')) \<and>
         length (item_preview (newItem s now1 now2)) \<le> 53 \<and>
         (\<forall>m. maxItems s = Num m \<and> 1 \<le> m \<longrightarrow>
            hd (items (saveText now1 now2 s)) = newItem s now1 now2)"
  using assms
  by (simp add: item_text_newItem item_preview_newItem createPreview_def substring0_def
        hd_items_saveText)

theorem C6_preview_witness:
  "item_preview (hd (items (saveText 1 2
      (initial_state\<lparr>text_value := (str ''  The quick brown fox jumps over the lazy dog, twice over  '')\<rparr>)))) =
     (str ''The quick brown fox jumps over the lazy dog, twice...'')"
proof -
  define s0 where "s0 =
    initial_state\<lparr>text_value := str ''  The quick brown fox jumps over the lazy dog, twice over  ''\<rparr>"
  have t: "trim (text_value s0) = str ''The quick brown fox jumps over the lazy dog, twice over''"
    by (simp add: s0_def trim_example_long)
  have m: "maxItems s0 = Num 50"
    by (simp add: s0_def initial_state_def)
  from C6_preview [of s0 1 2]
  have "item_preview (newItem s0 1 2) = take 50 (trim (text_value s0)) @ str ''...''"
    and "hd (items (saveText 1 2 s0)) = newItem s0 1 2"
    by (simp_all add: t m)
  then have "item_preview (hd (items (saveText 1 2 s0))) =
      str ''The quick brown fox jumps over the lazy dog, twice...''"
    by (simp add: t str_def)
  then show ?thesis
    by (simp add: s0_def)
qed

subsection \<open>The type of a saved entry\<close>

lemma detectContentType_spec:
  "detectContentType t =
     (if prefix (str ''http://'') t \<or> prefix (str ''https://'') t then TypeUrl
      else if sublist [96, 96, 96] t \<or> sublist (str ''function'') t
              \<or> sublist (str ''const '') t \<or> sublist (str ''import '') t
      then TypeCode
      else if sublist (str ''#'') t \<or> sublist (str ''**'') t \<or> sublist (str ''*'') t
              \<or> sublist (str ''['') t \<or> sublist (str '']'') t
      then TypeMarkdown
      else TypeText)"
  unfolding detectContentType_def startsWith_prefix includes_str_sublist ..

lemma scenario_url:
  "map item_type (items (run [SetText (str ''https://example.com''), SaveText now1 now2] initial_state))
     = [TypeUrl]"
  by (simp add: items_run_save item_type_newItem trim_def isWhiteSpace_def str_def detectContentType_def
        startsWith_def del: run.simps step.simps) (simp add: initial_state_def)

lemma scenario_markdown:
  "map item_type (items (run [SetText (str ''# Title\<newline>**bold**''), SaveText now1 now2] initial_state))
     = [TypeMarkdown]"
  by (simp add: items_run_save item_type_newItem trim_def isWhiteSpace_def str_def detectContentType_def
        startsWith_def del: run.simps step.simps) (simp add: initial_state_def)

lemma scenario_code:
  "map item_type (items (run [SetText (str ''const x = 1''), SaveText now1 now2] initial_state))
     = [TypeCode]"
  by (simp add: items_run_save item_type_newItem trim_def isWhiteSpace_def str_def detectContentType_def
        startsWith_def del: run.simps step.simps) (simp add: initial_state_def)

lemma scenario_text:
  "map item_type (items (run [SetText (str ''hello world''), SaveText now1 now2] initial_state))
     = [TypeText]"
  by (simp add: items_run_save item_type_newItem trim_def isWhiteSpace_def str_def detectContentType_def
        startsWith_def del: run.simps step.simps) (simp add: initial_state_def)

text \<open>
  C3. When the type cell holds the default \<^verbatim>\<open>"text"\<close>, the type of the entry that a save
  builds is decided from the trimmed text, in this order: url when the text starts with
  \<^verbatim>\<open>http://\<close> or \<^verbatim>\<open>https://\<close>; else code when it contains three backquotes in a row,
  \<^verbatim>\<open>function\<close>, \<^verbatim>\<open>const\<close> and a space, or \<^verbatim>\<open>import\<close> and a space; else markdown
  when it contains one of \<open>#\<close>, \<open>**\<close>, \<open>*\<close>, \<open>[\<close>, \<open>]\<close>; else text. The four
  scenarios of the specification, run from the initial state, give url, markdown, code
  and text.
\<close>

theorem C3_detected_type:
  assumes "contentType s = TypeText"
  shows "item_type (newItem s now1 now2) =
           (if prefix (str ''http://'') (trim (text_value s)) \<or> prefix (str ''https://'') (trim (text_value s))
            then TypeUrl
            else if sublist [96, 96, 96] (trim (text_value s))
                    \<or> sublist (str ''function'') (trim (text_value s))
                    \<or> sublist (str ''const '') (trim (text_value s))
                    \<or> sublist (str ''import '') (trim (text_value s))
            then TypeCode
            else if sublist (str ''#'') (trim (text_value s)) \<or> sublist (str ''**'') (trim (text_value s))
                    \<or> sublist (str ''*'') (trim (text_value s)) \<or> sublist (str ''['') (trim (text_value s))
                    \<or> sublist (str '']'') (trim (text_value s))
            then TypeMarkdown
            else TypeText) \<and>
         (\<forall>m. trim (text_value s) \<noteq> [] \<and> maxItems s = Num m \<and> 1 \<le> m \<longrightarrow>
            hd (items (saveText now1 now2 s)) = newItem s now1 now2) \<and>
         map item_type (items (run [SetText (str ''https://example.com''), SaveText now1 now2] initial_state))
           = [TypeUrl] \<and>
         map item_type (items (run [SetText (str ''# Title\<newline>**bold**''), SaveText now1 now2] initial_state))
           = [TypeMarkdown] \<and>
         map item_type (items (run [SetText (str ''const x = 1''), SaveText now1 now2] initial_state))
           = [TypeCode] \<and>
         map item_type (items (run [SetText (str ''hello world''), SaveText now1 now2] initial_state))
           = [TypeText]"
proof -
  have a: "item_type (newItem s now1 now2) = detectContentType (trim (text_value s))"
    using assms by (simp add: item_type_newItem)
  have b: "\<forall>m. trim (text_value s) \<noteq> [] \<and> maxItems s = Num m \<and> 1 \<le> m \<longrightarrow>
            hd (items (saveText now1 now2 s)) = newItem s now1 now2"
    by (auto simp: hd_items_saveText)
  show ?thesis
    unfolding a detectContentType_spec [symmetric]
    by (intro conjI refl b scenario_url scenario_markdown scenario_code scenario_text)
qed

theorem C3_detected_type_witness:
  "item_type (newItem (initial_state\<lparr>text_value := (str ''see [docs] '')\<rparr>) 1 2) = TypeMarkdown"
  using C3_detected_type [of "initial_state\<lparr>text_value := (str ''see [docs] '')\<rparr>" 1 2]
  by (simp add: trim_def isWhiteSpace_def str_def sublist_Cons_right) (simp add: initial_state_def)

lemma text_type_run:
  "list_all (\<lambda>item. item_type item = TypeText \<longrightarrow> detectContentType (item_text item) = TypeText)
     (items (run es initial_state))"
  by (rule items_run_all) (simp_all add: item_type_newItem item_text_newItem items_initial_state)

lemma detectContentType_text_iff:
  "detectContentType t = TypeText \<longleftrightarrow>
     \<not> (startsWith t (str ''http://'') \<or> startsWith t (str ''https://'')) \<and>
     \<not> (includes_str t [96, 96, 96] \<or> includes_str t (str ''function'')
          \<or> includes_str t (str ''const '') \<or> includes_str t (str ''import '')) \<and>
     \<not> (includes_str t (str ''#'') \<or> includes_str t (str ''**'') \<or> includes_str t (str ''*'')
          \<or> includes_str t (str ''['') \<or> includes_str t (str '']''))"
  by (simp add: detectContentType_def)

text \<open>
  C10. The value \<^verbatim>\<open>"text"\<close> of the type cell is both the default and a choice of the
  menu: choosing it leaves a state with the default as it is, and a save after that
  choice stores the detected type. So the entry that a save builds has type text only
  when its trimmed text matches none of the url, code and markdown patterns, and in every
  state of a session started from the initial state each entry of type text has a text
  that the detection itself maps to text.
\<close>

theorem C10_explicit_text_is_auto_detect:
  "(contentType s = TypeText \<longrightarrow> step (SetContentType TypeText) s = s) \<and>
   item_type (newItem (step (SetContentType TypeText) s) now1 now2) =
     detectContentType (trim (text_value s)) \<and>
   (item_type (newItem s now1 now2) = TypeText \<longrightarrow>
      \<not> (startsWith (trim (text_value s)) (str ''http://'') \<or> startsWith (trim (text_value s)) (str ''https://'')) \<and>
      \<not> (includes_str (trim (text_value s)) [96, 96, 96]
           \<or> includes_str (trim (text_value s)) (str ''function'')
           \<or> includes_str (trim (text_value s)) (str ''const '')
           \<or> includes_str (trim (text_value s)) (str ''import '')) \<and>
      \<not> (includes_str (trim (text_value s)) (str ''#'') \<or> includes_str (trim (text_value s)) (str ''**'')
           \<or> includes_str (trim (text_value s)) (str ''*'') \<or> includes_str (trim (text_value s)) (str ''['')
           \<or> includes_str (trim (text_value s)) (str '']''))) \<and>
   list_all (\<lambda>item. item_type item = TypeText \<longrightarrow> detectContentType (item_text item) = TypeText)
     (items (run es initial_state))"
proof -
  have a: "contentType s = TypeText \<longrightarrow> step (SetContentType TypeText) s = s"
    by auto
  have b: "item_type (newItem (step (SetContentType TypeText) s) now1 now2) =
     detectContentType (trim (text_value s))"
    by (simp add: item_type_newItem)
  have c: "item_type (newItem s now1 now2) = TypeText \<longrightarrow>
      detectContentType (trim (text_value s)) = TypeText"
    by (simp add: item_type_newItem)
  show ?thesis
    using a b c text_type_run [of es] unfolding detectContentType_text_iff by blast
qed

theorem C10_explicit_text_is_auto_detect_witness:
  "map item_type (items (run [SetText (str ''https://example.com''), SetContentType TypeText, SaveText 1 2]
      initial_state)) = [TypeUrl]"
proof -
  have t: "trim (str ''https://example.com'') = (str ''https://example.com'')"
    by (simp add: trim_def isWhiteSpace_def str_def)
  have d: "detectContentType (str ''https://example.com'') = TypeUrl"
    by (simp add: detectContentType_def startsWith_def str_def)
  have "item_type (newItem (step (SetContentType TypeText)
          (initial_state\<lparr>text_value := (str ''https://example.com'')\<rparr>)) 1 2) = TypeUrl"
    using C10_explicit_text_is_auto_detect
      [of "initial_state\<lparr>text_value := (str ''https://example.com'')\<rparr>" 1 2 "[]"]
    by (simp add: t d)
  then show ?thesis
    by (simp add: items_saveText slice0_def t) (simp add: initial_state_def)
qed

subsection \<open>Loading a corrupt persisted state\<close>

text \<open>
  C8. Loaded on the initial state, a persisted entry list that does not parse leaves the
  entry list empty, and a persisted tag vocabulary that does not parse gives the
  predefined tags. Both parse errors are caught: the load is a total function and returns
  a state whatever the three stored strings are.
\<close>

theorem C8_corrupt_persisted_state:
  "(parseItems j = Inl err \<longrightarrow>
      items (loadPersisted parseItems parseTags (Some j) savedMaxItems savedTags initial_state) = []) \<and>
   (parseTags k = Inl err' \<longrightarrow>
      allTags (loadPersisted parseItems parseTags saved savedMaxItems (Some k) initial_state)
        = PREDEFINED_TAGS)"
  by (auto simp: loadPersisted_def Let_def initial_state_def split: option.splits sum.splits)

theorem C8_corrupt_persisted_state_witness:
  "items (loadPersisted (\<lambda>j. Inl SyntaxError) (\<lambda>j. Inl SyntaxError)
            (Some (str ''[{oops'')) (Some (str ''20'')) (Some (str ''[oops'')) initial_state) = [] \<and>
   allTags (loadPersisted (\<lambda>j. Inl SyntaxError) (\<lambda>j. Inl SyntaxError)
            (Some (str ''[{oops'')) (Some (str ''20'')) (Some (str ''[oops'')) initial_state) = PREDEFINED_TAGS"
  using C8_corrupt_persisted_state [of "\<lambda>j. Inl SyntaxError" "(str ''[{oops'')" SyntaxError
      "\<lambda>j. Inl SyntaxError" "Some (str ''20'')" "Some (str ''[oops'')" "(str ''[oops'')" SyntaxError "Some (str ''[{oops'')"]
  by simp

subsection \<open>Texts and ids of the stored entries\<close>

text \<open>Definitions to unfold when a session is run on concrete inputs.\<close>

lemmas eval_defs = saveText_def newItem_def slice0_def trim_def isWhiteSpace_def str_def
  initial_state_def toString_def digits.simps Let_def createPreview_def detectContentType_def
  startsWith_def substring0_def

lemma distinct_map_slice0: "distinct (map f xs) \<Longrightarrow> distinct (map f (slice0 xs e))"
proof -
  assume d: "distinct (map f xs)"
  obtain k where "slice0 xs e = take k xs" using slice0_take by blast
  then have "map f (slice0 xs e) = take k (map f xs)" by (simp add: take_map)
  with d show ?thesis by simp
qed

lemma items_step_other:
  assumes "\<And>now1 now2. e \<noteq> SaveText now1 now2"
  shows "\<exists>P. items (step e s) = filter P (items s)"
proof (cases e)
  case (DeleteItem i)
  then show ?thesis by (auto simp: deleteItem_def)
next
  case ClearAll
  then have "items (step e s) = filter (\<lambda>item. False) (items s)" by (simp add: clearAll_def)
  then show ?thesis by blast
next
  case (SaveText now1 now2)
  then show ?thesis using assms [of now1 now2] by simp
qed (auto simp: addTag_def removeTag_def selectTag_def changeMaxItems_def
       intro: exI [of _ "\<lambda>item. True"])

lemma distinct_saveText:
  assumes "distinct (map f (items s))" and "f (newItem s now1 now2) \<notin> f ` {item \<in> set (items s). item_text item \<noteq> trim (text_value s)}"
  shows "distinct (map f (items (saveText now1 now2 s)))"
proof (cases "trim (text_value s) = []")
  case True
  with assms show ?thesis by (simp add: saveText_blank)
next
  case False
  have "distinct (map f (newItem s now1 now2 #
          filter (\<lambda>item. item_text item \<noteq> trim (text_value s)) (items s)))"
    using assms by (auto simp: distinct_map_filter)
  then show ?thesis
    unfolding items_saveText [OF False] by (rule distinct_map_slice0)
qed

lemma distinct_text_step:
  assumes "distinct (map item_text (items s))"
  shows "distinct (map item_text (items (step e s)))"
proof (cases "\<exists>now1 now2. e = SaveText now1 now2")
  case True
  then obtain now1 now2 where e: "e = SaveText now1 now2" by blast
  show ?thesis
    unfolding e step.simps
    by (rule distinct_saveText [OF assms]) (auto simp: item_text_newItem)
next
  case False
  then obtain P where "items (step e s) = filter P (items s)"
    using items_step_other [of e s] by blast
  with assms show ?thesis by (simp add: distinct_map_filter)
qed

lemma distinct_text_run:
  "distinct (map item_text (items s)) \<Longrightarrow> distinct (map item_text (items (run es s)))"
  by (induction es arbitrary: s) (simp_all add: distinct_text_step)

lemma distinct_id_run:
  assumes "distinct (map item_id (items s))" and "distinct (idClocks es)"
    and "\<And>t. t \<in> set (idClocks es) \<Longrightarrow> toString t \<notin> item_id ` set (items s)"
  shows "distinct (map item_id (items (run es s)))"
  using assms
proof (induction es arbitrary: s)
  case Nil
  then show ?case by simp
next
  case (Cons e es)
  show ?case
  proof (cases "\<exists>now1 now2. e = SaveText now1 now2")
    case True
    then obtain now1 now2 where e: "e = SaveText now1 now2" by blast
    have fresh: "toString now1 \<notin> item_id ` set (items s)"
      using Cons.prems(3) [of now1] by (simp add: e)
    have 1: "distinct (map item_id (items (saveText now1 now2 s)))"
      by (rule distinct_saveText [OF Cons.prems(1)]) (use fresh in \<open>auto simp: item_id_newItem\<close>)
    have 2: "distinct (idClocks es)" and 3: "now1 \<notin> set (idClocks es)"
      using Cons.prems(2) by (simp_all add: e)
    have 4: "toString t \<notin> item_id ` set (items (saveText now1 now2 s))"
      if "t \<in> set (idClocks es)" for t
    proof -
      have "t \<noteq> now1" using that 3 by blast
      then have "toString t \<noteq> toString now1" by (simp add: toString_inject)
      moreover have "toString t \<notin> item_id ` set (items s)"
        using Cons.prems(3) [of t] that by (simp add: e)
      ultimately show ?thesis
        using set_items_saveText [of now1 now2 s] by (auto simp: item_id_newItem)
    qed
    show ?thesis
      using Cons.IH [OF 1 2 4] by (simp add: e)
  next
    case False
    then obtain P where P: "items (step e s) = filter P (items s)"
      using items_step_other [of e s] by blast
    have c: "idClocks (e # es) = idClocks es"
      using False by (cases e) simp_all
    have 1: "distinct (map item_id (items (step e s)))"
      using Cons.prems(1) by (simp add: P distinct_map_filter)
    have 2: "distinct (idClocks es)"
      using Cons.prems(2) by (simp add: c)
    have 4: "toString t \<notin> item_id ` set (items (step e s))" if "t \<in> set (idClocks es)" for t
      using Cons.prems(3) [of t] that by (auto simp: c P)
    show ?thesis
      using Cons.IH [OF 1 2 4] by simp
  qed
qed

text \<open>
  C4, as the code has it. The id of an entry is the decimal rendering of the clock
  reading taken when it is saved, and that rendering is injective. So in every state of a
  session started from the initial state the ids of the stored entries are pairwise
  distinct, provided that the clock readings which the saves of the session turn into ids
  are pairwise distinct.
\<close>

theorem C4_ids_distinct_for_distinct_clocks:
  "distinct (idClocks es) \<Longrightarrow> distinct (map item_id (items (run es initial_state)))"
  by (rule distinct_id_run) (simp_all add: items_initial_state)

theorem C4_ids_distinct_for_distinct_clocks_witness:
  "map item_id (items
      (run [SetText (str ''a''), SaveText 1000 1000, SetText (str ''b''), SaveText 1001 1001] initial_state))
     = [(str ''1001''), (str ''1000'')] \<and>
   distinct (map item_id (items
      (run [SetText (str ''a''), SaveText 1000 1000, SetText (str ''b''), SaveText 1001 1001] initial_state)))"
  using C4_ids_distinct_for_distinct_clocks
    [of "[SetText (str ''a''), SaveText 1000 1000, SetText (str ''b''), SaveText 1001 1001]"]
  by (simp add: eval_defs)

text \<open>
  Without that proviso the ids are not distinct: two saves of different texts at the same
  clock reading leave two entries with the same id.
\<close>

theorem C4_ids_collide_counterexample:
  "\<not> distinct (map item_id (items
      (run [SetText (str ''a''), SaveText 1000 1000, SetText (str ''b''), SaveText 1000 1000] initial_state)))"
  by (simp add: eval_defs)

subsection \<open>The capacity of the entry list\<close>

lemma maxItems_changeMaxItems: "\<exists>m. maxItems (changeMaxItems v s) = Num m \<and> 1 \<le> m"
  by (cases "parseInt v 0") (auto simp: changeMaxItems_def or_else_def Math_max_def)

lemma maxItems_step_other:
  "(\<And>v. e \<noteq> ChangeMaxItems v) \<Longrightarrow> maxItems (step e s) = maxItems s"
  by (cases e) (auto simp: addTag_def removeTag_def selectTag_def deleteItem_def clearAll_def
       maxItems_saveText)

lemma maxItems_step:
  assumes "\<exists>m. maxItems s = Num m \<and> 1 \<le> m"
  shows "\<exists>m. maxItems (step e s) = Num m \<and> 1 \<le> m"
proof (cases "\<exists>v. e = ChangeMaxItems v")
  case True
  then show ?thesis using maxItems_changeMaxItems by auto
next
  case False
  then show ?thesis using assms maxItems_step_other [of e s] by auto
qed

lemma maxItems_run:
  "\<exists>m. maxItems s = Num m \<and> 1 \<le> m \<Longrightarrow> \<exists>m. maxItems (run es s) = Num m \<and> 1 \<le> m"
  by (induction es arbitrary: s) (simp_all add: maxItems_step)

lemma maxItems_reachable: "\<exists>m. maxItems (run es initial_state) = Num m \<and> 1 \<le> m"
  by (rule maxItems_run) (simp add: initial_state_def)

lemma within_capacity_saveText:
  assumes "trim (text_value s) \<noteq> []" and "maxItems s = Num m" and "0 \<le> m"
  shows "within_capacity (saveText now1 now2 s)"
  using assms by (simp add: within_capacity_def maxItems_saveText items_saveText slice0_nonneg)

lemma within_capacity_step:
  assumes "within_capacity s" and "\<And>v. e \<noteq> ChangeMaxItems v"
  shows "within_capacity (step e s)"
proof -
  obtain m where m: "maxItems s = Num m" and len: "int (length (items s)) \<le> m"
    using assms(1) by (auto simp: within_capacity_def split: number.splits)
  have m': "maxItems (step e s) = Num m"
    using maxItems_step_other [of e s] assms(2) m by simp
  show ?thesis
  proof (cases "\<exists>now1 now2. e = SaveText now1 now2")
    case True
    then obtain now1 now2 where e: "e = SaveText now1 now2" by blast
    show ?thesis
    proof (cases "trim (text_value s) = []")
      case True
      then show ?thesis using assms(1) by (simp add: e saveText_blank)
    next
      case False
      from len have "0 \<le> m" by linarith
      from within_capacity_saveText [OF False m this] show ?thesis by (simp add: e)
    qed
  next
    case False
    then obtain P where "items (step e s) = filter P (items s)"
      using items_step_other [of e s] by blast
    then have "length (items (step e s)) \<le> length (items s)" by simp
    with len m' show ?thesis by (simp add: within_capacity_def)
  qed
qed

lemma within_capacity_run:
  "within_capacity s \<Longrightarrow> (\<And>e v. e \<in> set es \<Longrightarrow> e \<noteq> ChangeMaxItems v) \<Longrightarrow>
   within_capacity (run es s)"
proof (induction es arbitrary: s)
  case Nil
  then show ?case by simp
next
  case (Cons e es)
  have "within_capacity (step e s)"
    by (rule within_capacity_step [OF Cons.prems(1)]) (use Cons.prems(2) in auto)
  then show ?case using Cons.IH Cons.prems(2) by simp
qed

text \<open>
  C1, as the code has it. A save that passes the guard leaves the first \<^verbatim>\<open>maxItems\<close>
  entries of the new entry followed by the earlier entries (without the one of the same
  text), so the list is within capacity after it and the entries dropped are those at the
  tail; this holds for every \<^verbatim>\<open>maxItems\<close> that is an integer from 0 on, whatever the list
  was before. A save, a delete and a clear of a list that is within capacity leave it
  within capacity. A change of the setting leaves the entry list as it is. So the list is
  within capacity in every state of a session started from the initial state in which the
  setting is not changed.
\<close>

theorem C1_capacity_after_save:
  "(trim (text_value s) \<noteq> [] \<and> maxItems s = Num m \<and> 0 \<le> m \<longrightarrow>
      items (saveText now1 now2 s) =
        take (nat m) (newItem s now1 now2 #
          filter (\<lambda>item. item_text item \<noteq> trim (text_value s)) (items s)) \<and>
      within_capacity (saveText now1 now2 s)) \<and>
   (within_capacity s \<longrightarrow>
      within_capacity (step (SaveText now1 now2) s) \<and> within_capacity (step (DeleteItem i) s) \<and>
      within_capacity (step ClearAll s)) \<and>
   items (step (ChangeMaxItems v) s) = items s \<and>
   ((\<forall>e \<in> set es. \<forall>v. e \<noteq> ChangeMaxItems v) \<longrightarrow> within_capacity (run es initial_state))"
proof -
  have a: "trim (text_value s) \<noteq> [] \<and> maxItems s = Num m \<and> 0 \<le> m \<longrightarrow>
      items (saveText now1 now2 s) =
        take (nat m) (newItem s now1 now2 #
          filter (\<lambda>item. item_text item \<noteq> trim (text_value s)) (items s)) \<and>
      within_capacity (saveText now1 now2 s)"
    by (simp add: within_capacity_saveText items_saveText slice0_nonneg)
  have b: "within_capacity s \<longrightarrow>
      within_capacity (step (SaveText now1 now2) s) \<and> within_capacity (step (DeleteItem i) s) \<and>
      within_capacity (step ClearAll s)"
    by (simp add: within_capacity_step del: step.simps)
  have c: "items (step (ChangeMaxItems v) s) = items s"
    by (simp add: changeMaxItems_def)
  have "within_capacity initial_state"
    by (simp add: within_capacity_def initial_state_def)
  then have d: "(\<forall>e \<in> set es. \<forall>v. e \<noteq> ChangeMaxItems v) \<longrightarrow> within_capacity (run es initial_state)"
    using within_capacity_run [of initial_state es] by blast
  show ?thesis
    using a b c d by (intro conjI)
qed

theorem C1_capacity_after_save_witness:
  "map item_text (items (run [SetText (str ''a''), SaveText 1 1, SetText (str ''b''), SaveText 2 2,
      ChangeMaxItems (str ''1''), SetText (str ''c''), SaveText 3 3] initial_state)) = [(str ''c'')]"
proof -
  define s where "s = run [SetText (str ''a''), SaveText 1 1, SetText (str ''b''), SaveText 2 2,
      ChangeMaxItems (str ''1''), SetText (str ''c'')] initial_state"
  have h: "trim (text_value s) \<noteq> []" "maxItems s = Num 1" "trim (text_value s) = (str ''c'')"
    by (simp_all add: s_def eval_defs changeMaxItems_def parseInt_def or_else_def
        Math_max_def isRadixDigit_def digitValue_def radixValue_def)
  have "items (saveText 3 3 s) = take (nat 1) (newItem s 3 3 #
          filter (\<lambda>item. item_text item \<noteq> trim (text_value s)) (items s))"
    using C1_capacity_after_save [of s 1 3 3] h by simp
  then have "map item_text (items (saveText 3 3 s)) = [(str ''c'')]"
    by (simp add: item_text_newItem h)
  then show ?thesis
    by (simp add: s_def)
qed

text \<open>
  After a change of the setting the list can be longer than \<^verbatim>\<open>maxItems\<close>: two saves and
  then the setting lowered to 1 leave two entries, until the next save.
\<close>

theorem C1_capacity_counterexample:
  "\<not> within_capacity
      (run [SetText (str ''a''), SaveText 1 1, SetText (str ''b''), SaveText 2 2, ChangeMaxItems (str ''1'')]
         initial_state)"
  by (simp add: eval_defs within_capacity_def changeMaxItems_def parseInt_def or_else_def
        Math_max_def isRadixDigit_def digitValue_def radixValue_def)

subsection \<open>Search\<close>

lemma matchesSearch_sublist:
  "matchesSearch toLowerCase q item \<longleftrightarrow>
     sublist (toLowerCase q) (toLowerCase (item_text item))"
  by (simp add: matchesSearch_def includes_str_sublist)

lemma map_sublist_split:
  assumes "map f t = ps @ map f q @ ss"
  shows "\<exists>pre mid post. t = pre @ mid @ post \<and> map f mid = map f q"
proof -
  define mid where "mid = take (length q) (drop (length ps) t)"
  have "map f mid = take (length q) (drop (length ps) (map f t))"
    by (simp add: mid_def take_map drop_map)
  also have "\<dots> = map f q"
    by (simp add: assms)
  finally have "map f mid = map f q" .
  moreover have "t = take (length ps) t @ mid @ drop (length q) (drop (length ps) t)"
    by (simp add: mid_def del: drop_drop)
  ultimately show ?thesis by blast
qed

lemma lower_unit_eq_iff: "lower_unit a = lower_unit b \<longleftrightarrow> same_letter a b"
  by (auto simp: lower_unit_def same_letter_def isCapital_def)

lemma map_lower_unit_eq_iff:
  "map lower_unit xs = map lower_unit ys \<longleftrightarrow> list_all2 same_letter xs ys"
proof -
  have "map lower_unit xs = map lower_unit ys \<longleftrightarrow>
      list_all2 (=) (map lower_unit xs) (map lower_unit ys)"
    by (simp add: list.rel_eq)
  also have "\<dots> \<longleftrightarrow> list_all2 (\<lambda>a b. lower_unit a = lower_unit b) xs ys"
    by (simp add: list.rel_map)
  finally show ?thesis by (simp add: lower_unit_eq_iff)
qed

lemma sublist_map_lower_unit:
  "sublist (map lower_unit q) (map lower_unit t) \<longleftrightarrow> contains_ignoring_case t q"
proof
  assume "sublist (map lower_unit q) (map lower_unit t)"
  then obtain ps ss where "map lower_unit t = ps @ map lower_unit q @ ss"
    by (auto simp: sublist_def)
  from map_sublist_split [OF this]
  show "contains_ignoring_case t q"
    by (simp add: contains_ignoring_case_def map_lower_unit_eq_iff)
next
  assume "contains_ignoring_case t q"
  then obtain pre mid post where "t = pre @ mid @ post"
      and "map lower_unit mid = map lower_unit q"
    unfolding contains_ignoring_case_def map_lower_unit_eq_iff [symmetric] by blast
  then have "map lower_unit t = map lower_unit pre @ map lower_unit q @ map lower_unit post"
    by simp
  then show "sublist (map lower_unit q) (map lower_unit t)"
    unfolding sublist_def by blast
qed

lemma matchesSearch_Latin1:
  assumes "lowers_Latin1 toLowerCase"
    and "list_all (\<lambda>c. c < 256) q" and "list_all (\<lambda>c. c < 256) (item_text item)"
  shows "matchesSearch toLowerCase q item \<longleftrightarrow> contains_ignoring_case (item_text item) q"
proof -
  have "toLowerCase q = map lower_unit q"
    and "toLowerCase (item_text item) = map lower_unit (item_text item)"
    using assms by (simp_all add: lowers_Latin1_def)
  then show ?thesis
    by (simp add: matchesSearch_sublist sublist_map_lower_unit)
qed

lemma lowers_Latin1_map: "lowers_Latin1 (map lower_unit)"
  by (simp add: lowers_Latin1_def)

text \<open>
  C9, as the code has it. The view \<^verbatim>\<open>filteredItems\<close> filters the entry list once, by the
  search test and the tag test together. Whatever \<^verbatim>\<open>toLowerCase\<close> does, its search test
  is that the lower-cased text contains the lower-cased query as a substring, and the view
  is the tag filter applied to the entries that pass it, in the order of the list. When
  the tag filter lets every entry pass (it is off, or no tag is selected), the view is
  exactly the entries whose lower-cased text contains the lower-cased query, and with the
  empty query (whose lower-casing is empty) it is the whole list. When moreover the query
  and the text of every entry have code units below 256 only, where \<^verbatim>\<open>toLowerCase\<close>
  moves each capital letter on its own, the view is exactly the entries whose text
  contains the query as a case-insensitive substring.
\<close>

theorem C9_search:
  "filteredItems toLowerCase s =
     filter (matchesTags (isTagFilterActive s) (selectedTags s))
       (filter (\<lambda>item. sublist (toLowerCase (searchQuery s)) (toLowerCase (item_text item)))
          (items s)) \<and>
   (\<not> isTagFilterActive s \<or> selectedTags s = [] \<longrightarrow>
      filteredItems toLowerCase s =
        filter (\<lambda>item. sublist (toLowerCase (searchQuery s)) (toLowerCase (item_text item)))
          (items s)) \<and>
   ((\<not> isTagFilterActive s \<or> selectedTags s = []) \<and> searchQuery s = [] \<and> toLowerCase [] = [] \<longrightarrow>
      filteredItems toLowerCase s = items s) \<and>
   ((\<not> isTagFilterActive s \<or> selectedTags s = []) \<and> lowers_Latin1 toLowerCase \<and>
    list_all (\<lambda>c. c < 256) (searchQuery s) \<and>
    list_all (\<lambda>item. list_all (\<lambda>c. c < 256) (item_text item)) (items s) \<longrightarrow>
      filteredItems toLowerCase s =
        filter (\<lambda>item. contains_ignoring_case (item_text item) (searchQuery s)) (items s))"
proof -
  have a: "filteredItems toLowerCase s =
     filter (matchesTags (isTagFilterActive s) (selectedTags s))
       (filter (\<lambda>item. sublist (toLowerCase (searchQuery s)) (toLowerCase (item_text item)))
          (items s))"
    by (simp add: filteredItems_def matchesSearch_sublist conj_commute)
  have pass: "filteredItems toLowerCase s =
      filter (\<lambda>item. matchesSearch toLowerCase (searchQuery s) item) (items s)"
    if "\<not> isTagFilterActive s \<or> selectedTags s = []"
    using that by (auto simp: filteredItems_def matchesTags_def)
  have b: "\<not> isTagFilterActive s \<or> selectedTags s = [] \<Longrightarrow>
      filteredItems toLowerCase s =
        filter (\<lambda>item. sublist (toLowerCase (searchQuery s)) (toLowerCase (item_text item)))
          (items s)"
    by (simp add: pass matchesSearch_sublist)
  have c: "(\<not> isTagFilterActive s \<or> selectedTags s = []) \<and> searchQuery s = [] \<and> toLowerCase [] = []
      \<Longrightarrow> filteredItems toLowerCase s = items s"
    by (simp add: pass matchesSearch_sublist)
  have d: "filteredItems toLowerCase s =
        filter (\<lambda>item. contains_ignoring_case (item_text item) (searchQuery s)) (items s)"
    if h: "(\<not> isTagFilterActive s \<or> selectedTags s = []) \<and> lowers_Latin1 toLowerCase \<and>
      list_all (\<lambda>c. c < 256) (searchQuery s) \<and>
      list_all (\<lambda>item. list_all (\<lambda>c. c < 256) (item_text item)) (items s)"
  proof -
    have "matchesSearch toLowerCase (searchQuery s) item \<longleftrightarrow>
        contains_ignoring_case (item_text item) (searchQuery s)"
      if "item \<in> set (items s)" for item
      using that h by (intro matchesSearch_Latin1) (auto simp: list_all_iff)
    then have "filter (\<lambda>item. matchesSearch toLowerCase (searchQuery s) item) (items s) =
        filter (\<lambda>item. contains_ignoring_case (item_text item) (searchQuery s)) (items s)"
      by (intro filter_cong refl)
    with h show ?thesis by (simp add: pass)
  qed
  show ?thesis
    using a b c d by blast
qed

theorem C9_search_witness:
  "filter (\<lambda>item. contains_ignoring_case (item_text item) (str ''WORLD''))
     [\<lparr>item_id = str ''2'', item_text = str ''bye'', item_timestamp = 2,
        item_preview = str ''bye'', item_tags = [], item_type = TypeText\<rparr>,
      \<lparr>item_id = str ''1'', item_text = str ''Hello World'', item_timestamp = 1,
        item_preview = str ''Hello World'', item_tags = [str ''Work''], item_type = TypeText\<rparr>]
   = [\<lparr>item_id = str ''1'', item_text = str ''Hello World'', item_timestamp = 1,
        item_preview = str ''Hello World'', item_tags = [str ''Work''], item_type = TypeText\<rparr>]"
proof -
  define i1 where "i1 = \<lparr>item_id = str ''1'', item_text = str ''Hello World'', item_timestamp = 1,
        item_preview = str ''Hello World'', item_tags = [str ''Work''], item_type = TypeText\<rparr>"
  define i2 where "i2 = \<lparr>item_id = str ''2'', item_text = str ''bye'', item_timestamp = 2,
        item_preview = str ''bye'', item_tags = [], item_type = TypeText\<rparr>"
  define s0 where "s0 = initial_state\<lparr>searchQuery := str ''WORLD'', items := [i2, i1]\<rparr>"
  have sel: "\<not> isTagFilterActive s0" "searchQuery s0 = str ''WORLD''" "items s0 = [i2, i1]"
    by (simp_all add: s0_def initial_state_def)
  have small: "list_all (\<lambda>c. c < 256) (searchQuery s0)"
    "list_all (\<lambda>item. list_all (\<lambda>c. c < 256) (item_text item)) (items s0)"
    by (simp_all add: sel i1_def i2_def str_def)
  have run: "filteredItems (map lower_unit) s0 = [i1]"
    by (simp add: filteredItems_def matchesTags_def sel matchesSearch_def i1_def i2_def
          str_def lower_unit_def isCapital_def startsWith_def)
  have "filteredItems (map lower_unit) s0 =
      filter (\<lambda>item. contains_ignoring_case (item_text item) (searchQuery s0)) (items s0)"
    using C9_search [of "map lower_unit" s0] sel(1) small lowers_Latin1_map by blast
  then have "filter (\<lambda>item. contains_ignoring_case (item_text item) (str ''WORLD'')) [i2, i1] = [i1]"
    by (simp only: run sel)
  then show ?thesis
    unfolding i1_def i2_def .
qed

text \<open>
  Beyond Latin-1 the search is not containment up to case. The text of the four Greek
  capital letters omicron, delta, omicron, sigma contains the query of the capital sigma
  as it stands; lower-cased, the text ends in the final sigma and the query is the small
  sigma, so the entry is saved and then not found.
\<close>

theorem C9_final_sigma_counterexample:
  "map item_text (items (run [SetText [0x39F, 0x394, 0x39F, 0x3A3], SaveText 1 1,
      SetSearchQuery [0x3A3]] initial_state)) = [[0x39F, 0x394, 0x39F, 0x3A3]] \<and>
   contains_ignoring_case [0x39F, 0x394, 0x39F, 0x3A3] [0x3A3] \<and>
   filteredItems toLowerCase_sigma (run [SetText [0x39F, 0x394, 0x39F, 0x3A3], SaveText 1 1,
      SetSearchQuery [0x3A3]] initial_state) = []"
proof -
  have "[0x39F, 0x394, 0x39F, 0x3A3] = [0x39F, 0x394, 0x39F] @ [0x3A3] @ ([] :: jstring)"
    by simp
  moreover have "list_all2 same_letter [0x3A3] [0x3A3]"
    by (simp add: same_letter_def)
  ultimately have "contains_ignoring_case [0x39F, 0x394, 0x39F, 0x3A3] [0x3A3]"
    unfolding contains_ignoring_case_def by blast
  moreover have "map item_text (items (run [SetText [0x39F, 0x394, 0x39F, 0x3A3], SaveText 1 1,
      SetSearchQuery [0x3A3]] initial_state)) = [[0x39F, 0x394, 0x39F, 0x3A3]]"
    by (simp add: eval_defs)
  moreover have "filteredItems toLowerCase_sigma (run [SetText [0x39F, 0x394, 0x39F, 0x3A3],
      SaveText 1 1, SetSearchQuery [0x3A3]] initial_state) = []"
    by (simp add: eval_defs filteredItems_def matchesSearch_def toLowerCase_sigma_def)
  ultimately show ?thesis by blast
qed

subsection \<open>The range of the capacity setting\<close>

lemma parseInt_examples:
  "parseInt (str ''500'') 0 = Num 500" "parseInt (str ''abc'') 10 = NaN" "parseInt (str ''0'') 10 = Num 0"
  by (simp_all add: parseInt_def isWhiteSpace_def startsWith_def isRadixDigit_def digitValue_def
        radixValue_def str_def)

text \<open>
  C5. The handler of the settings field keeps the setting an integer of at least 1
  (\<open>maxItems_changeMaxItems\<close>) and falls back to 50 for an input that does not parse, but
  it sets no upper limit: the input \<^verbatim>\<open>500\<close> is stored as 500, above the 200 that the
  field declares as its maximum. The load stores what \<^verbatim>\<open>parseInt\<close> returns, unchecked:
  NaN for a stored \<^verbatim>\<open>abc\<close>, and 0 for a stored \<^verbatim>\<open>0\<close>.
\<close>

theorem C5_maxItems_leaves_range:
  "maxItems (step (ChangeMaxItems (str ''500'')) s) = Num 500 \<and>
   maxItems (loadPersisted parseItems parseTags saved (Some (str ''abc'')) savedTags s) = NaN \<and>
   maxItems (loadPersisted parseItems parseTags saved (Some (str ''0'')) savedTags s) = Num 0"
  by (simp add: changeMaxItems_def loadPersisted_def parseInt_examples or_else_def Math_max_def
        Let_def split: option.splits sum.splits)

subsection \<open>One entry for each text\<close>

lemma filter_take_filter_neq:
  "filter (\<lambda>item. f item = t) (take k (filter (\<lambda>item. f item \<noteq> t) xs)) = []"
  unfolding filter_empty_conv by (auto dest: in_set_takeD)

lemma filter_same_text_saveText:
  assumes "trim (text_value s) \<noteq> []" and "maxItems s = Num m" and "1 \<le> m"
  shows "filter (\<lambda>item. item_text item = trim (text_value s)) (items (saveText now1 now2 s))
           = [newItem s now1 now2]"
proof -
  have "items (saveText now1 now2 s) = newItem s now1 now2 #
      take (nat m - 1) (filter (\<lambda>item. item_text item \<noteq> trim (text_value s)) (items s))"
    using assms by (simp add: items_saveText slice0_Cons)
  then show ?thesis
    by (simp add: item_text_newItem filter_take_filter_neq)
qed

text \<open>
  Where the capacity is an integer of at least 1, as it is in every state that the
  handlers reach from the initial state (\<open>maxItems_reachable\<close>), a save that passes the
  guard puts the new entry at position 0, with the trimmed input as its text, the
  rendering of the first clock reading as its id and the second reading as its timestamp,
  and the entries of the list that have this text are the new entry alone, once. The
  texts of the entries of such a session are pairwise distinct.
\<close>

lemma saved_text_once_at_front:
  assumes "trim (text_value s) \<noteq> []" and "maxItems s = Num m" and "1 \<le> m"
  shows "items (saveText now1 now2 s) ! 0 = newItem s now1 now2 \<and>
         item_text (newItem s now1 now2) = trim (text_value s) \<and>
         item_id (newItem s now1 now2) = toString now1 \<and>
         item_timestamp (newItem s now1 now2) = now2 \<and>
         filter (\<lambda>item. item_text item = trim (text_value s)) (items (saveText now1 now2 s))
           = [newItem s now1 now2] \<and>
         distinct (map item_text (items (run es initial_state)))"
proof -
  have a: "items (saveText now1 now2 s) ! 0 = newItem s now1 now2"
    using assms by (simp add: items_saveText slice0_Cons)
  have b: "distinct (map item_text (items (run es initial_state)))"
    by (rule distinct_text_run) (simp add: items_initial_state)
  show ?thesis
    by (intro conjI a b item_text_newItem item_id_newItem item_timestamp_newItem
          filter_same_text_saveText [OF assms])
qed

text \<open>
  C2. The load stores the parsed capacity unchecked. After a load of a stored \<^verbatim>\<open>0\<close>, or
  of a stored \<^verbatim>\<open>abc\<close> (which parses to NaN), a save of the text \<^verbatim>\<open>a\<close> slices the new
  list to nothing: the entry list is empty, and no entry has the saved text.
\<close>

theorem C2_save_lost_after_unchecked_load:
  "items (run [SetText (str ''a''), SaveText now1 now2]
      (loadPersisted parseItems parseTags None (Some (str ''0'')) None initial_state)) = [] \<and>
   items (run [SetText (str ''a''), SaveText now1 now2]
      (loadPersisted parseItems parseTags None (Some (str ''abc'')) None initial_state)) = []"
proof -
  have t: "trim (str ''a'') \<noteq> []"
    by (simp add: trim_def isWhiteSpace_def str_def)
  have 0: "maxItems (loadPersisted parseItems parseTags None (Some (str ''0'')) None initial_state)
      = Num 0"
    by (simp add: loadPersisted_def parseInt_examples)
  have 1: "maxItems (loadPersisted parseItems parseTags None (Some (str ''abc'')) None initial_state)
      = NaN"
    by (simp add: loadPersisted_def parseInt_examples)
  show ?thesis
    by (simp add: items_saveText t 0 1 slice0_def)
qed

end
